theory Spec2Isabelle
  imports Main "HOL-Library.Word"
begin

section \<open>JavaScript strings\<close>

text \<open>
  A JavaScript string is a sequence of UTF-16 code units. The script compares strings with
  \<^verbatim>\<open>===\<close> (equality of the code unit sequences) and uses the built-ins
  \<^verbatim>\<open>trim\<close>, \<open>split\<close>, \<open>join\<close> and \<open>filter(Boolean)\<close>.
\<close>

type_synonym js_string = "16 word list"

definition str :: "string \<Rightarrow> js_string" where
  "str s = map of_char s"

text \<open>
  \<^verbatim>\<open>String.prototype.trim\<close> removes WhiteSpace and LineTerminator code points from both
  ends: TAB, VT, FF, SP, NBSP, ZWNBSP, the Unicode space separators, and LF, CR, LS, PS.
\<close>

definition is_js_whitespace :: "16 word \<Rightarrow> bool" where
  "is_js_whitespace c \<longleftrightarrow>
     c = 0x0009 \<or> c = 0x000A \<or> c = 0x000B \<or> c = 0x000C \<or> c = 0x000D \<or>
     c = 0x0020 \<or> c = 0x00A0 \<or> c = 0x1680 \<or>
     (0x2000 \<le> c \<and> c \<le> 0x200A) \<or>
     c = 0x2028 \<or> c = 0x2029 \<or> c = 0x202F \<or> c = 0x205F \<or>
     c = 0x3000 \<or> c = 0xFEFF"

definition trim :: "js_string \<Rightarrow> js_string" where
  "trim s = rev (dropWhile is_js_whitespace (rev (dropWhile is_js_whitespace s)))"

text \<open>
  \<^verbatim>\<open>s.split(sep)\<close> for a one-unit separator: the pieces between the separators, at least
  one piece (the empty string splits into one empty piece).
\<close>

fun split :: "16 word \<Rightarrow> js_string \<Rightarrow> js_string list" where
  "split sep [] = [[]]"
| "split sep (c # cs) =
     (if c = sep then [] # split sep cs
      else (case split sep cs of
              [] \<Rightarrow> [[c]]
            | piece # pieces \<Rightarrow> (c # piece) # pieces))"

text \<open>\<^verbatim>\<open>xs.join(sep)\<close>.\<close>

fun join :: "js_string \<Rightarrow> js_string list \<Rightarrow> js_string" where
  "join sep [] = []"
| "join sep [x] = x"
| "join sep (x # y # ys) = x @ sep @ join sep (y # ys)"

text \<open>\<^verbatim>\<open>xs.filter(Boolean)\<close> on strings keeps the non-empty ones.\<close>

definition filter_Boolean :: "js_string list \<Rightarrow> js_string list" where
  "filter_Boolean xs = filter (\<lambda>s. s \<noteq> []) xs"

section \<open>Options and parseArgs\<close>

record Options =
  staged :: bool
  branch :: js_string

definition default_options :: Options where
  "default_options = \<lparr> staged = False, branch = str ''HEAD'' \<rparr>"

text \<open>
  The loop of \<^verbatim>\<open>parseArgs\<close> over \<^verbatim>\<open>args\<close>, with the loop index \<open>i\<close> and the options
  record it mutates. The third component of the state is the list of the indices at which
  the loop has read \<^verbatim>\<open>args\<close> so far (\<^verbatim>\<open>args[i]\<close> and \<^verbatim>\<open>args[i + 1]\<close>), in order: a
  JavaScript array read out of range does not fail, it yields \<^verbatim>\<open>undefined\<close>, so the
  reads are recorded to state that none of them is out of range.
\<close>

function parseArgs_loop ::
  "js_string list \<Rightarrow> nat \<Rightarrow> Options \<Rightarrow> nat list \<Rightarrow> Options \<times> nat list" where
  "parseArgs_loop args i options reads =
     (if i < length args then
        (if args ! i = str ''--staged'' then
           parseArgs_loop args (i + 1) (options\<lparr>staged := True\<rparr>) (reads @ [i])
         else if args ! i = str ''--branch'' \<and> i + 1 < length args then
           parseArgs_loop args (i + 2) (options\<lparr>branch := args ! (i + 1)\<rparr>)
             (reads @ [i, i + 1])
         else
           parseArgs_loop args (i + 1) options (reads @ [i]))
      else (options, reads))"
  by pat_completeness auto
termination
  by (relation "measure (\<lambda>(args, i, options, reads). length args - i)") auto

text \<open>
  \<^verbatim>\<open>parseArgs\<close> reads \<^verbatim>\<open>process.argv.slice(2)\<close>; \<open>argv\<close> is the whole of
  \<^verbatim>\<open>process.argv\<close>.
\<close>

definition parseArgs :: "js_string list \<Rightarrow> Options" where
  "parseArgs argv = fst (parseArgs_loop (drop 2 argv) 0 default_options [])"

definition parseArgs_reads :: "js_string list \<Rightarrow> nat list" where
  "parseArgs_reads argv = snd (parseArgs_loop (drop 2 argv) 0 default_options [])"

section \<open>The shell\<close>

text \<open>
  The script reaches the repository only through two awaited shell calls. Each either
  yields the text of the standard output or throws (Bun's shell throws a \<^verbatim>\<open>ShellError\<close>
  on a non-zero exit status, a call of a member that an object does not have throws a
  \<^verbatim>\<open>TypeError\<close>; anything thrown inside the \<^verbatim>\<open>try\<close> block is caught by the same
  handler). The calls are parameters of the model:
  \<^item> \<open>raw_text cmd\<close> is \<^verbatim>\<open>await $.raw(cmd).text()\<close>;
  \<^item> \<open>policy_check diff\<close> is
    \<^verbatim>\<open>await $`echo ${diff}`.pipe($`./scripts/validate-plugin-version.ts`).text()\<close>.
\<close>

datatype js_error = ShellError nat | TypeError | OtherError

record shell_env =
  raw_text :: "js_string \<Rightarrow> js_error + js_string"
  policy_check :: "js_string \<Rightarrow> js_error + js_string"

text \<open>
  The shell that Bun provides. The \<^verbatim>\<open>$\<close> that line 3 imports from \<^verbatim>\<open>"bun"\<close> is a
  tagged-template function with the members \<^verbatim>\<open>braces\<close>, \<^verbatim>\<open>escape\<close>, \<^verbatim>\<open>env\<close>, \<^verbatim>\<open>cwd\<close>,
  \<^verbatim>\<open>nothrow\<close> and \<^verbatim>\<open>throws\<close>; text that is not to be escaped is given to a template as
  \<^verbatim>\<open>${{ raw: s }}\<close>. It has no member \<^verbatim>\<open>raw\<close>, and the promise that a template call
  returns has no member \<^verbatim>\<open>pipe\<close>. The calls \<^verbatim>\<open>$.raw(...)\<close> of lines 41 and 59 and
  \<^verbatim>\<open>.pipe(...)\<close> of line 62 therefore throw a \<^verbatim>\<open>TypeError\<close>, before any subprocess is
  started.
\<close>

definition bun_shell :: shell_env where
  "bun_shell = \<lparr> raw_text = (\<lambda>cmd. Inl TypeError),
                 policy_check = (\<lambda>diff. Inl TypeError) \<rparr>"

section \<open>getChangedPlugins and validatePlugin\<close>

definition getChangedPlugins_args :: "Options \<Rightarrow> js_string list" where
  "getChangedPlugins_args options =
     [str ''./scripts/changed-plugins.ts'']
     @ (if staged options then [str ''--staged''] else [])
     @ (if branch options \<noteq> str ''HEAD'' then [str ''--branch'', branch options] else [])"

definition getChangedPlugins :: "shell_env \<Rightarrow> Options \<Rightarrow> js_string list" where
  "getChangedPlugins env options =
     (case raw_text env (join (str '' '') (getChangedPlugins_args options)) of
        Inl error \<Rightarrow> []
      | Inr result \<Rightarrow> filter_Boolean (split 0x000A (trim result)))"

definition validatePlugin_args :: "js_string \<Rightarrow> Options \<Rightarrow> js_string list" where
  "validatePlugin_args pluginName options =
     [str ''./scripts/changed-plugins.ts'', pluginName]
     @ (if staged options then [str ''--staged''] else [])
     @ (if branch options \<noteq> str ''HEAD'' then [str ''--branch'', branch options] else [])"

definition validatePlugin :: "shell_env \<Rightarrow> js_string \<Rightarrow> Options \<Rightarrow> bool" where
  "validatePlugin env pluginName options =
     (case raw_text env (join (str '' '') (validatePlugin_args pluginName options)) of
        Inl error \<Rightarrow> False
      | Inr diff \<Rightarrow>
          (case policy_check env diff of
             Inl error \<Rightarrow> False
           | Inr result \<Rightarrow> trim result = str ''YES''))"

section \<open>main\<close>

text \<open>
  One constructor for each \<^verbatim>\<open>console.log\<close> call of \<^verbatim>\<open>main\<close>, carrying the values the
  line interpolates. There is no line for an error: the script prints none.
\<close>

datatype log_line =
    LogTitle
  | LogRule
  | LogBlank
  | LogNoChanges
  | LogFound nat js_string
  | LogChecking js_string
  | LogRequired
  | LogNotNeeded
  | LogSummary
  | LogTotal nat
  | LogNeeding nat
  | LogNeedHeader
  | LogNeedItem js_string
  | LogFailed
  | LogUpToDate

record run_result =
  console :: "log_line list"
  exit_status :: nat

text \<open>
  The \<^verbatim>\<open>for ... of changedPlugins\<close> loop: the state is the console output so far and
  \<^verbatim>\<open>pluginsNeedingUpdate\<close>.
\<close>

fun check_plugins ::
  "shell_env \<Rightarrow> Options \<Rightarrow> js_string list \<Rightarrow> log_line list \<Rightarrow> js_string list
     \<Rightarrow> log_line list \<times> js_string list" where
  "check_plugins env options [] out pluginsNeedingUpdate = (out, pluginsNeedingUpdate)"
| "check_plugins env options (pluginName # rest) out pluginsNeedingUpdate =
     (if validatePlugin env pluginName options then
        check_plugins env options rest
          (out @ [LogChecking pluginName, LogRequired, LogBlank])
          (pluginsNeedingUpdate @ [pluginName])
      else
        check_plugins env options rest
          (out @ [LogChecking pluginName, LogNotNeeded, LogBlank])
          pluginsNeedingUpdate)"

definition main :: "shell_env \<Rightarrow> js_string list \<Rightarrow> run_result" where
  "main env argv =
     (let options = parseArgs argv;
          out0 = [LogTitle, LogRule, LogBlank];
          changedPlugins = getChangedPlugins env options
      in if length changedPlugins = 0 then
           \<lparr> console = out0 @ [LogNoChanges], exit_status = 0 \<rparr>
         else
           (let out1 = out0 @ [LogFound (length changedPlugins)
                                  (join (str '', '') changedPlugins), LogBlank];
                checked = check_plugins env options changedPlugins out1 [];
                pluginsNeedingUpdate = snd checked;
                out2 = fst checked @ [LogRule, LogSummary,
                         LogTotal (length changedPlugins),
                         LogNeeding (length pluginsNeedingUpdate), LogBlank]
            in if length pluginsNeedingUpdate > 0 then
                 \<lparr> console = out2 @ [LogNeedHeader]
                            @ map LogNeedItem pluginsNeedingUpdate
                            @ [LogBlank, LogFailed],
                   exit_status = 1 \<rparr>
               else
                 \<lparr> console = out2 @ [LogUpToDate], exit_status = 0 \<rparr>))"

text \<open>
  The per-plugin part of the report: each \<^verbatim>\<open>Checking plugin: name\<close> line with the verdict
  line printed after it (\<open>True\<close> for \<^verbatim>\<open>Version update REQUIRED\<close>).
\<close>

fun report_entries :: "log_line list \<Rightarrow> (js_string \<times> bool) list" where
  "report_entries (LogChecking p # LogRequired # ls) = (p, True) # report_entries ls"
| "report_entries (LogChecking p # LogNotNeeded # ls) = (p, False) # report_entries ls"
| "report_entries (l # ls) = report_entries ls"
| "report_entries [] = []"



section \<open>Example environments\<close>

text \<open>
  A shell in which every query exits with status 128, and one in which every query prints
  nothing.
\<close>

definition failing_env :: shell_env where
  "failing_env = \<lparr> raw_text = (\<lambda>cmd. Inl (ShellError 128)),
                   policy_check = (\<lambda>diff. Inr (str ''NO\<newline>'')) \<rparr>"

definition empty_env :: shell_env where
  "empty_env = \<lparr> raw_text = (\<lambda>cmd. Inr []),
                 policy_check = (\<lambda>diff. Inr (str ''NO\<newline>'')) \<rparr>"

section \<open>Arguments read as flags\<close>

text \<open>
  The loop of \<^verbatim>\<open>parseArgs\<close> steps over the argument that follows a \<^verbatim>\<open>--branch\<close>: that
  argument is taken as the ref and is never compared with a flag. In a run of consecutive
  \<^verbatim>\<open>--branch\<close> arguments the loop therefore reads the first as a flag, the second as its
  value, the third as a flag again, and so on. \<open>branch_run args i\<close> is the number of
  consecutive \<^verbatim>\<open>--branch\<close> arguments immediately before position \<open>i\<close>, and position \<open>i\<close>
  is read as a flag when that number is even.
\<close>

definition branch_run :: "js_string list \<Rightarrow> nat \<Rightarrow> nat" where
  "branch_run args i = length (takeWhile (\<lambda>a. a = str ''--branch'') (rev (take i args)))"

definition read_as_flag :: "js_string list \<Rightarrow> nat \<Rightarrow> bool" where
  "read_as_flag args i \<longleftrightarrow> even (branch_run args i)"

text \<open>
  The positions of the \<^verbatim>\<open>--branch\<close> arguments that have a following argument, and those
  among them that are read as flags.
\<close>

definition branch_occurrences :: "js_string list \<Rightarrow> nat list" where
  "branch_occurrences args =
     filter (\<lambda>j. args ! j = str ''--branch'' \<and> j + 1 < length args) [0..<length args]"

definition branch_flags :: "js_string list \<Rightarrow> nat list" where
  "branch_flags args = filter (read_as_flag args) (branch_occurrences args)"

definition is_branch_flag :: "js_string list \<Rightarrow> nat \<Rightarrow> bool" where
  "is_branch_flag args j \<longleftrightarrow>
     (args ! j = str ''--branch'' \<and> j + 1 < length args) \<and> read_as_flag args j"

text \<open>Argument vectors (\<^verbatim>\<open>process.argv\<close>) used as examples.\<close>

definition argv_branch_staged :: "js_string list" where
  "argv_branch_staged =
     [str ''bun'', str ''check-plugin-versions.ts'', str ''--branch'', str ''--staged'']"

definition argv_branch_branch :: "js_string list" where
  "argv_branch_branch =
     [str ''bun'', str ''check-plugin-versions.ts'', str ''--branch'', str ''--branch'', str ''x'']"

definition argv_staged_branch_main :: "js_string list" where
  "argv_staged_branch_main =
     [str ''bun'', str ''check-plugin-versions.ts'', str ''--staged'', str ''--branch'', str ''main'']"

definition argv_two_refs_trailing :: "js_string list" where
  "argv_two_refs_trailing =
     [str ''bun'', str ''check-plugin-versions.ts'', str ''--branch'', str ''a'',
      str ''--branch'', str ''b'', str ''--branch'']"

section \<open>The version policy evaluator\<close>

text \<open>
  The script \<^verbatim>\<open>scripts/validate-plugin-version.ts\<close>, which \<^verbatim>\<open>validatePlugin\<close> runs as a
  subprocess, is not among the sources. The definitions of this section are modelled from
  section 4.3 of the specification (\<open>evaluate\<close>, the Version Policy Evaluator), following
  its words.
\<close>

text \<open>
  Modelled from the spec: the verdict of \<open>evaluate\<close> (the missing
  \<^verbatim>\<open>validate-plugin-version.ts\<close>). The plugin name that a verdict carries in the data
  model is attached by the caller; \<open>evaluate\<close> takes the diff only.
\<close>

datatype VersionVerdict = BumpRequired | NoBumpRequired

text \<open>
  Modelled from the spec: the one failure of \<open>evaluate\<close>, on a diff that cannot be parsed.
\<close>

datatype evaluate_error = MalformedDiffError

text \<open>
  Modelled from the spec: what section 4.3 leaves to the syntax of the diff and of the
  manifest read by the missing evaluator, taken as parameters:
  \<^item> \<open>unparseable diff\<close>: the diff text cannot be parsed into add/remove line sets;
  \<^item> \<open>header_line l\<close>: the line is a file or hunk header line;
  \<^item> \<open>version_value l\<close>: the value, when the line matches the version-field pattern
    (\<^verbatim>\<open>"version": "<value>"\<close> or an equivalent key-value form);
  \<^item> \<open>comment_line l\<close>: the line is a comment.
\<close>

record diff_syntax =
  unparseable :: "js_string \<Rightarrow> bool"
  header_line :: "js_string \<Rightarrow> bool"
  version_value :: "js_string \<Rightarrow> js_string option"
  comment_line :: "js_string \<Rightarrow> bool"

text \<open>
  Modelled from the spec: the lines of the diff given to the missing evaluator that
  are "prefixed with \<^verbatim>\<open>+\<close>/\<^verbatim>\<open>-\<close>, excluding file/hunk header lines", without their
  prefix.
\<close>

definition prefixed_lines :: "diff_syntax \<Rightarrow> 16 word \<Rightarrow> js_string \<Rightarrow> js_string list" where
  "prefixed_lines syn sign diff =
     map tl (filter (\<lambda>l. l \<noteq> [] \<and> hd l = sign \<and> \<not> header_line syn l) (split 0x000A diff))"

text \<open>
  Modelled from the spec: the added-line set of the missing evaluator.
\<close>

definition added_lines :: "diff_syntax \<Rightarrow> js_string \<Rightarrow> js_string list" where
  "added_lines syn diff = prefixed_lines syn 0x002B diff"

text \<open>
  Modelled from the spec: the removed-line set of the missing evaluator.
\<close>

definition removed_lines :: "diff_syntax \<Rightarrow> js_string \<Rightarrow> js_string list" where
  "removed_lines syn diff = prefixed_lines syn 0x002D diff"

text \<open>
  Modelled from the spec: two lines of the diff that both match the version-field
  pattern of the missing evaluator, with different values.
\<close>

definition different_versions :: "diff_syntax \<Rightarrow> js_string \<Rightarrow> js_string \<Rightarrow> bool" where
  "different_versions syn x y =
     (case version_value syn x of
        None \<Rightarrow> False
      | Some v \<Rightarrow> (case version_value syn y of None \<Rightarrow> False | Some w \<Rightarrow> v \<noteq> w))"

text \<open>
  Modelled from the spec: axis (a) of the missing evaluator, "did any line matching
  the version-field pattern appear in both the added and removed sets with different
  values?"
\<close>

definition version_changed :: "diff_syntax \<Rightarrow> js_string list \<Rightarrow> js_string list \<Rightarrow> bool" where
  "version_changed syn added removed =
     list_ex (\<lambda>x. list_ex (different_versions syn x) removed) added"

text \<open>
  Modelled from the spec: a line that the missing evaluator counts as a
  "non-version, non-whitespace, non-comment field".
\<close>

definition semantic_field_line :: "diff_syntax \<Rightarrow> js_string \<Rightarrow> bool" where
  "semantic_field_line syn x \<longleftrightarrow>
     version_value syn x = None \<and> \<not> list_all is_js_whitespace x \<and> \<not> comment_line syn x"

text \<open>
  Modelled from the spec: axis (b) of the missing evaluator, "did any non-version,
  non-whitespace, non-comment field change (added or removed lines outside the version
  field)?"
\<close>

definition other_field_changed :: "diff_syntax \<Rightarrow> js_string list \<Rightarrow> js_string list \<Rightarrow> bool" where
  "other_field_changed syn added removed = list_ex (semantic_field_line syn) (added @ removed)"

text \<open>
  Modelled from the spec: the missing evaluator itself. The decision rule is
  "\<^verbatim>\<open>BumpRequired\<close> iff (b) is true and (a) is false", and the failure mode is "malformed
  diff input (unparseable): evaluator fails with \<^verbatim>\<open>MalformedDiffError\<close>".
\<close>

definition evaluate :: "diff_syntax \<Rightarrow> js_string \<Rightarrow> evaluate_error + VersionVerdict" where
  "evaluate syn diff =
     (if unparseable syn diff then Inl MalformedDiffError
      else if other_field_changed syn (added_lines syn diff) (removed_lines syn diff)
              \<and> \<not> version_changed syn (added_lines syn diff) (removed_lines syn diff)
           then Inr BumpRequired
           else Inr NoBumpRequired)"

text \<open>
  Modelled from the spec: a string between double quotes, as the fields of the manifest in
  the scenarios of section 8 (the manifest syntax of the missing evaluator).
\<close>

definition quoted :: "string \<Rightarrow> js_string" where
  "quoted s = [0x0022] @ str s @ [0x0022]"

text \<open>
  Modelled from the spec: the version-field pattern \<^verbatim>\<open>"version": "<value>"\<close> of the
  missing evaluator, for the example syntax: the trimmed line starts with
  \<^verbatim>\<open>"version": "\<close>, and the value ends at the next quote.
\<close>

definition json_version_value :: "js_string \<Rightarrow> js_string option" where
  "json_version_value l =
     (let t = trim l; key = quoted ''version'' @ str '': '' @ [0x0022]
      in if take (length key) t = key
         then Some (takeWhile (\<lambda>c. c \<noteq> 0x0022) (drop (length key) t))
         else None)"

text \<open>
  Modelled from the spec: one syntax for the missing evaluator, for the scenarios of
  section 8. Lines starting with \<^verbatim>\<open>+++\<close>, \<^verbatim>\<open>---\<close> or \<^verbatim>\<open>@@\<close> are header lines, no
  line is a comment, and a diff is unparseable when a non-empty line starts with none of
  \<^verbatim>\<open>+\<close>, \<^verbatim>\<open>-\<close>, space and \<^verbatim>\<open>@\<close>.
\<close>

definition json_syntax :: diff_syntax where
  "json_syntax =
     \<lparr> unparseable = (\<lambda>diff. list_ex (\<lambda>l. l \<noteq> [] \<and> hd l \<notin> {0x002B, 0x002D, 0x0020, 0x0040})
                                   (split 0x000A diff)),
       header_line = (\<lambda>l. take 3 l = str ''+++'' \<or> take 3 l = str ''---'' \<or> take 2 l = str ''@@''),
       version_value = json_version_value,
       comment_line = (\<lambda>l. False) \<rparr>"

text \<open>
  Modelled from the spec: a diff line of the scenarios of section 8 (input of the
  missing evaluator): the sign, then the field \<^verbatim>\<open>"key": "value",\<close> indented.
\<close>

definition field_line :: "string \<Rightarrow> string \<Rightarrow> string \<Rightarrow> js_string" where
  "field_line sign key val = str sign @ str ''  '' @ quoted key @ str '': '' @ quoted val @ str '',''"

text \<open>
  Modelled from the spec: the diff of scenario A (input of the missing evaluator): the
  version line removed and added with the same value, a description added.
\<close>

definition scenario_A :: js_string where
  "scenario_A = join [0x000A]
     [field_line ''-'' ''version'' ''1.0.0'',
      field_line ''+'' ''version'' ''1.0.0'',
      field_line ''+'' ''description'' ''new text'']"

text \<open>
  Modelled from the spec: the diff of scenario B (input of the missing evaluator): the
  version changed from 1.0.0 to 1.0.1, a description added.
\<close>

definition scenario_B :: js_string where
  "scenario_B = join [0x000A]
     [field_line ''-'' ''version'' ''1.0.0'',
      field_line ''+'' ''version'' ''1.0.1'',
      field_line ''+'' ''description'' ''new text'']"

section \<open>Auxiliary facts\<close>


subsection \<open>The report of main\<close>

lemma check_plugins_snd:
  "snd (check_plugins env options ps out need)
     = need @ filter (\<lambda>p. validatePlugin env p options) ps"
  by (induction ps arbitrary: out need) simp_all



lemma report_entries_prefix:
  "\<forall>p. LogChecking p \<notin> set xs \<Longrightarrow> report_entries (xs @ ys) = report_entries ys"
proof (induction xs)
  case Nil
  then show ?case by simp
next
  case (Cons x xs)
  then show ?case by (cases x) auto
qed


lemma main_no_changes:
  "getChangedPlugins env (parseArgs argv) = [] \<Longrightarrow>
     main env argv = \<lparr> console = [LogTitle, LogRule, LogBlank, LogNoChanges], exit_status = 0 \<rparr>"
  by (simp add: main_def Let_def)

lemma main_exit_status:
  "exit_status (main env argv)
     = (if \<exists>p\<in>set (getChangedPlugins env (parseArgs argv)).
             validatePlugin env p (parseArgs argv) then 1 else 0)"
  by (auto simp: main_def Let_def check_plugins_snd filter_empty_conv)




subsection \<open>The example environments\<close>

lemma parseArgs_nil: "parseArgs [] = default_options"
  by (simp add: parseArgs_def)

lemma bun_shell_changed: "getChangedPlugins bun_shell options = []"
  by (simp add: getChangedPlugins_def bun_shell_def)


lemma empty_env_changed: "getChangedPlugins empty_env default_options = []"
  by (simp add: getChangedPlugins_def empty_env_def trim_def filter_Boolean_def)

subsection \<open>The loop of parseArgs\<close>

lemma flag_neq: "str ''--staged'' \<noteq> str ''--branch''"
  by (simp add: str_def)

lemma branch_run_0: "branch_run args 0 = 0"
  by (simp add: branch_run_def)

lemma branch_run_Suc:
  "i < length args \<Longrightarrow>
     branch_run args (Suc i)
       = (if args ! i = str ''--branch'' then Suc (branch_run args i) else 0)"
  by (simp add: branch_run_def take_Suc_conv_app_nth)

lemma read_as_flag_0: "read_as_flag args 0"
  by (simp add: read_as_flag_def branch_run_0)

lemma read_as_flag_after_other:
  "i < length args \<Longrightarrow> args ! i \<noteq> str ''--branch'' \<Longrightarrow> read_as_flag args (Suc i)"
  by (simp add: read_as_flag_def branch_run_Suc)

lemma read_as_flag_after_branch:
  "i < length args \<Longrightarrow> args ! i = str ''--branch'' \<Longrightarrow>
     read_as_flag args (Suc i) \<longleftrightarrow> \<not> read_as_flag args i"
  by (simp add: read_as_flag_def branch_run_Suc)

lemma read_as_flag_after_value:
  "Suc i < length args \<Longrightarrow> args ! i = str ''--branch'' \<Longrightarrow> read_as_flag args i \<Longrightarrow>
     read_as_flag args (Suc (Suc i))"
  by (cases "args ! Suc i = str ''--branch''")
     (simp_all add: read_as_flag_after_branch read_as_flag_after_other)

declare parseArgs_loop.simps [simp del]

lemma loop_done:
  "\<not> i < length args \<Longrightarrow> parseArgs_loop args i options reads = (options, reads)"
  by (subst parseArgs_loop.simps) simp

lemma loop_staged_step:
  "i < length args \<Longrightarrow> args ! i = str ''--staged'' \<Longrightarrow>
     parseArgs_loop args i options reads
       = parseArgs_loop args (i + 1) (options\<lparr>staged := True\<rparr>) (reads @ [i])"
  by (subst parseArgs_loop.simps) simp

lemma loop_branch_step:
  "i < length args \<Longrightarrow> args ! i \<noteq> str ''--staged'' \<Longrightarrow>
   args ! i = str ''--branch'' \<and> i + 1 < length args \<Longrightarrow>
     parseArgs_loop args i options reads
       = parseArgs_loop args (i + 2) (options\<lparr>branch := args ! (i + 1)\<rparr>) (reads @ [i, i + 1])"
  by (subst parseArgs_loop.simps) simp

lemma loop_other_step:
  "i < length args \<Longrightarrow> args ! i \<noteq> str ''--staged'' \<Longrightarrow>
   \<not> (args ! i = str ''--branch'' \<and> i + 1 < length args) \<Longrightarrow>
     parseArgs_loop args i options reads = parseArgs_loop args (i + 1) options (reads @ [i])"
  by (subst parseArgs_loop.simps) auto

lemma parseArgs_loop_reads:
  "i \<le> length args \<Longrightarrow> snd (parseArgs_loop args i options reads) = reads @ [i..<length args]"
proof (induction args i options reads rule: parseArgs_loop.induct)
  case (1 args i options reads)
  show ?case
  proof (cases "i < length args")
    case False
    with "1.prems" show ?thesis by (simp add: loop_done)
  next
    case True
    note lt = True
    show ?thesis
    proof (cases "args ! i = str ''--staged''")
      case True
      with lt "1.IH"(1) show ?thesis
        by (simp add: loop_staged_step upt_conv_Cons)
    next
      case False
      note ns = False
      show ?thesis
      proof (cases "args ! i = str ''--branch'' \<and> i + 1 < length args")
        case True
        with lt ns "1.IH"(2) show ?thesis
          by (simp add: loop_branch_step upt_conv_Cons)
      next
        case False
        with lt ns "1.IH"(3) show ?thesis
          by (simp add: loop_other_step upt_conv_Cons)
      qed
    qed
  qed
qed

lemma staged_range_skip:
  assumes "\<forall>j. i \<le> j \<and> j < k \<longrightarrow> \<not> (read_as_flag args j \<and> args ! j = str ''--staged'')"
    and "i \<le> k"
  shows "(\<exists>j. i \<le> j \<and> j < length args \<and> read_as_flag args j \<and> args ! j = str ''--staged'')
     \<longleftrightarrow> (\<exists>j. k \<le> j \<and> j < length args \<and> read_as_flag args j \<and> args ! j = str ''--staged'')"
  using assms by (meson le_trans not_le_imp_less)

lemma parseArgs_loop_staged:
  "(i < length args \<longrightarrow> read_as_flag args i) \<Longrightarrow>
   staged (fst (parseArgs_loop args i options reads)) \<longleftrightarrow>
     staged options \<or> (\<exists>j. i \<le> j \<and> j < length args \<and> read_as_flag args j \<and> args ! j = str ''--staged'')"
proof (induction args i options reads rule: parseArgs_loop.induct)
  case (1 args i options reads)
  show ?case
  proof (cases "i < length args")
    case False
    then show ?thesis by (auto simp: loop_done)
  next
    case True
    note lt = True
    with "1.prems" have fl: "read_as_flag args i" by simp
    show ?thesis
    proof (cases "args ! i = str ''--staged''")
      case True
      then have "Suc i < length args \<longrightarrow> read_as_flag args (Suc i)"
        using lt by (simp add: read_as_flag_after_other flag_neq)
      then have "staged (fst (parseArgs_loop args (i + 1) (options\<lparr>staged := True\<rparr>) (reads @ [i])))"
        using "1.IH"(1)[OF lt True] by simp
      moreover have "\<exists>j. i \<le> j \<and> j < length args \<and> read_as_flag args j \<and> args ! j = str ''--staged''"
        using lt fl True by blast
      ultimately show ?thesis
        using lt True by (simp add: loop_staged_step)
    next
      case False
      note ns = False
      show ?thesis
      proof (cases "args ! i = str ''--branch'' \<and> i + 1 < length args")
        case True
        then have nx: "i + 2 < length args \<longrightarrow> read_as_flag args (i + 2)"
          using fl by (simp add: read_as_flag_after_value)
        have nf: "\<not> read_as_flag args (Suc i)"
          using True lt fl by (simp add: read_as_flag_after_branch)
        have "\<forall>j. i \<le> j \<and> j < i + 2 \<longrightarrow> \<not> (read_as_flag args j \<and> args ! j = str ''--staged'')"
        proof (intro allI impI)
          fix j assume "i \<le> j \<and> j < i + 2"
          then have "j = i \<or> j = Suc i" by arith
          then show "\<not> (read_as_flag args j \<and> args ! j = str ''--staged'')"
            using ns nf by auto
        qed
        then have eq: "(\<exists>j. i \<le> j \<and> j < length args \<and> read_as_flag args j \<and> args ! j = str ''--staged'')
            \<longleftrightarrow> (\<exists>j. i + 2 \<le> j \<and> j < length args \<and> read_as_flag args j \<and> args ! j = str ''--staged'')"
          by (rule staged_range_skip) simp
        show ?thesis
          using "1.IH"(2)[OF lt ns True nx] eq
          by (simp add: loop_branch_step[OF lt ns True])
      next
        case False
        then have nx: "i + 1 < length args \<longrightarrow> read_as_flag args (i + 1)"
          using lt by (auto simp: read_as_flag_after_other)
        have "\<forall>j. i \<le> j \<and> j < i + 1 \<longrightarrow> \<not> (read_as_flag args j \<and> args ! j = str ''--staged'')"
        proof (intro allI impI)
          fix j assume "i \<le> j \<and> j < i + 1"
          then have "j = i" by arith
          then show "\<not> (read_as_flag args j \<and> args ! j = str ''--staged'')"
            using ns by auto
        qed
        then have eq: "(\<exists>j. i \<le> j \<and> j < length args \<and> read_as_flag args j \<and> args ! j = str ''--staged'')
            \<longleftrightarrow> (\<exists>j. i + 1 \<le> j \<and> j < length args \<and> read_as_flag args j \<and> args ! j = str ''--staged'')"
          by (rule staged_range_skip) simp
        show ?thesis
          using "1.IH"(3)[OF lt ns False nx] eq
          by (simp add: loop_other_step[OF lt ns False])
      qed
    qed
  qed
qed

lemma branch_flags_filter:
  "branch_flags args = filter (is_branch_flag args) [0..<length args]"
  by (auto simp: branch_flags_def branch_occurrences_def is_branch_flag_def intro!: filter_cong)

lemma parseArgs_loop_branch:
  "(i < length args \<longrightarrow> read_as_flag args i) \<Longrightarrow>
   branch (fst (parseArgs_loop args i options reads))
     = (if filter (is_branch_flag args) [i..<length args] = [] then branch options
        else args ! (last (filter (is_branch_flag args) [i..<length args]) + 1))"
proof (induction args i options reads rule: parseArgs_loop.induct)
  case (1 args i options reads)
  show ?case
  proof (cases "i < length args")
    case False
    then show ?thesis by (simp add: loop_done)
  next
    case True
    note lt = True
    with "1.prems" have fl: "read_as_flag args i" by simp
    have up: "[i..<length args] = i # [i + 1..<length args]"
      using lt by (simp add: upt_conv_Cons)
    show ?thesis
    proof (cases "args ! i = str ''--staged''")
      case True
      then have nx: "i + 1 < length args \<longrightarrow> read_as_flag args (i + 1)"
        using lt by (simp add: read_as_flag_after_other flag_neq)
      have ni: "\<not> is_branch_flag args i"
        using True by (simp add: is_branch_flag_def flag_neq)
      show ?thesis
        using "1.IH"(1)[OF lt True nx] ni
        by (simp add: loop_staged_step[OF lt True] up)
    next
      case False
      note ns = False
      show ?thesis
      proof (cases "args ! i = str ''--branch'' \<and> i + 1 < length args")
        case True
        then have nx: "i + 2 < length args \<longrightarrow> read_as_flag args (i + 2)"
          using fl by (simp add: read_as_flag_after_value)
        have nf: "\<not> read_as_flag args (Suc i)"
          using True lt fl by (simp add: read_as_flag_after_branch)
        have up2: "[i..<length args] = i # Suc i # [i + 2..<length args]"
          using True by (simp add: upt_conv_Cons)
        have yi: "is_branch_flag args i"
          using True fl by (simp add: is_branch_flag_def)
        have ni: "\<not> is_branch_flag args (Suc i)"
          using nf by (simp add: is_branch_flag_def)
        show ?thesis
          using "1.IH"(2)[OF lt ns True nx] yi ni
          by (simp add: loop_branch_step[OF lt ns True] up2)
      next
        case False
        then have nx: "i + 1 < length args \<longrightarrow> read_as_flag args (i + 1)"
          using lt by (auto simp: read_as_flag_after_other)
        have ni: "\<not> is_branch_flag args i"
          using False by (auto simp: is_branch_flag_def)
        show ?thesis
          using "1.IH"(3)[OF lt ns False nx] ni
          by (simp add: loop_other_step[OF lt ns False] up)
      qed
    qed
  qed
qed

lemma read_as_flag_append:
  "i \<le> length xs \<Longrightarrow> read_as_flag (xs @ ys) i = read_as_flag xs i"
  by (simp add: read_as_flag_def branch_run_def)

lemma loop_trailing_branch:
  "i \<le> length xs \<Longrightarrow> read_as_flag xs i \<Longrightarrow> read_as_flag xs (length xs) \<Longrightarrow>
     \<forall>r. fst (parseArgs_loop (xs @ [str ''--branch'']) i options r)
           = fst (parseArgs_loop xs i options reads)"
proof (induction xs i options reads rule: parseArgs_loop.induct)
  case (1 xs i options reads)
  let ?ys = "xs @ [str ''--branch'']"
  show ?case
  proof (cases "i < length xs")
    case False
    with "1.prems" have i: "i = length xs" by simp
    have a: "i < length ?ys" using i by simp
    have b: "?ys ! i \<noteq> str ''--staged''" using i by (simp add: flag_neq[symmetric])
    have c: "\<not> (?ys ! i = str ''--branch'' \<and> i + 1 < length ?ys)" using i by simp
    have d: "\<not> Suc i < length ?ys" using i by simp
    show ?thesis
      using d False by (simp add: loop_other_step[OF a b c] loop_done)
  next
    case True
    note lt = True
    then have a: "i < length ?ys" by simp
    have nth: "?ys ! i = xs ! i" using lt by (simp add: nth_append)
    show ?thesis
    proof (cases "xs ! i = str ''--staged''")
      case True
      have nx: "read_as_flag xs (i + 1)"
        using lt True by (simp add: read_as_flag_after_other flag_neq)
      have s: "?ys ! i = str ''--staged''" using nth True by simp
      show ?thesis
        using "1.IH"(1)[OF lt True _ nx "1.prems"(3)] lt
        by (simp add: loop_staged_step[OF a s] loop_staged_step[OF lt True])
    next
      case False
      note ns = False
      then have ns': "?ys ! i \<noteq> str ''--staged''" using nth by simp
      show ?thesis
      proof (cases "xs ! i = str ''--branch''")
        case True
        have "i + 1 \<noteq> length xs"
        proof
          assume "i + 1 = length xs"
          moreover have "\<not> read_as_flag xs (Suc i)"
            using lt True "1.prems"(2) by (simp add: read_as_flag_after_branch)
          ultimately show False using "1.prems"(3) by simp
        qed
        then have lt2: "i + 1 < length xs" using lt by arith
        have br: "xs ! i = str ''--branch'' \<and> i + 1 < length xs" using True lt2 by simp
        have br': "?ys ! i = str ''--branch'' \<and> i + 1 < length ?ys" using True lt2 nth by simp
        have nx: "read_as_flag xs (i + 2)"
          using lt2 True "1.prems"(2) by (simp add: read_as_flag_after_value)
        have v: "?ys ! Suc i = xs ! Suc i" using lt2 by (simp add: nth_append)
        show ?thesis
          using "1.IH"(2)[OF lt ns br _ nx "1.prems"(3)] lt2
          by (simp add: loop_branch_step[OF a ns' br'] loop_branch_step[OF lt ns br] v)
      next
        case False
        then have nb: "\<not> (xs ! i = str ''--branch'' \<and> i + 1 < length xs)" by simp
        have nb': "\<not> (?ys ! i = str ''--branch'' \<and> i + 1 < length ?ys)" using False nth by simp
        have nx: "read_as_flag xs (i + 1)"
          using lt False by (simp add: read_as_flag_after_other)
        show ?thesis
          using "1.IH"(3)[OF lt ns nb _ nx "1.prems"(3)] lt
          by (simp add: loop_other_step[OF a ns' nb'] loop_other_step[OF lt ns nb])
      qed
    qed
  qed
qed

lemma parseArgs_staged_iff:
  "staged (parseArgs argv) \<longleftrightarrow>
     (\<exists>j<length (drop 2 argv). read_as_flag (drop 2 argv) j \<and> drop 2 argv ! j = str ''--staged'')"
  using parseArgs_loop_staged[of 0 "drop 2 argv" default_options "[]"]
  by (simp add: parseArgs_def read_as_flag_0 default_options_def)

lemma parseArgs_branch_eq:
  "branch (parseArgs argv)
     = (if branch_flags (drop 2 argv) = [] then str ''HEAD''
        else drop 2 argv ! (last (branch_flags (drop 2 argv)) + 1))"
  using parseArgs_loop_branch[of 0 "drop 2 argv" default_options "[]"]
  by (simp add: parseArgs_def read_as_flag_0 default_options_def branch_flags_filter)

lemma parseArgs_reads_eq: "parseArgs_reads argv = [0..<length (drop 2 argv)]"
  using parseArgs_loop_reads[of 0 "drop 2 argv" default_options "[]"]
  by (simp add: parseArgs_reads_def)

lemma branch_flags_no_branch:
  "str ''--branch'' \<notin> set xs \<Longrightarrow> branch_flags (xs @ [str ''--branch'']) = []"
  by (auto simp: branch_flags_def branch_occurrences_def filter_empty_conv nth_append
        in_set_conv_nth)

lemma branch_flags_none:
  "str ''--branch'' \<notin> set args \<Longrightarrow> branch_flags args = []"
  by (auto simp: branch_flags_def branch_occurrences_def filter_empty_conv in_set_conv_nth)

lemma parseArgs_trailing_branch:
  assumes "drop 2 argv = xs @ [str ''--branch'']" and "read_as_flag (drop 2 argv) (length xs)"
  shows "parseArgs argv = parseArgs (butlast argv)"
proof -
  have fl: "read_as_flag xs (length xs)"
    using assms by (simp add: read_as_flag_append)
  have "drop 2 (butlast argv) = butlast (drop 2 argv)"
    by (simp add: drop_butlast)
  then have d: "drop 2 (butlast argv) = xs" using assms(1) by simp
  have "fst (parseArgs_loop (xs @ [str ''--branch'']) 0 default_options [])
          = fst (parseArgs_loop xs 0 default_options [])"
    using loop_trailing_branch[of 0 xs default_options "[]"] fl
    by (simp add: read_as_flag_0)
  then show ?thesis by (simp add: parseArgs_def assms(1) d)
qed

lemma parseArgs_argv_branch_staged:
  "parseArgs argv_branch_staged = \<lparr> staged = False, branch = str ''--staged'' \<rparr>"
  by (simp add: parseArgs_def argv_branch_staged_def default_options_def parseArgs_loop.simps str_def)

lemma parseArgs_argv_branch_branch:
  "parseArgs argv_branch_branch = \<lparr> staged = False, branch = str ''--branch'' \<rparr>"
  by (simp add: parseArgs_def argv_branch_branch_def default_options_def parseArgs_loop.simps str_def)

lemma parseArgs_argv_staged_branch_main:
  "parseArgs argv_staged_branch_main = \<lparr> staged = True, branch = str ''main'' \<rparr>"
  by (simp add: parseArgs_def argv_staged_branch_main_def default_options_def parseArgs_loop.simps str_def)

lemma parseArgs_argv_two_refs_trailing:
  "parseArgs argv_two_refs_trailing = \<lparr> staged = False, branch = str ''b'' \<rparr>"
  by (simp add: parseArgs_def argv_two_refs_trailing_def default_options_def parseArgs_loop.simps str_def)

subsection \<open>The evaluator\<close>

lemma different_versions_iff:
  "different_versions syn x y \<longleftrightarrow>
     (\<exists>v w. version_value syn x = Some v \<and> version_value syn y = Some w \<and> v \<noteq> w)"
  by (auto simp: different_versions_def split: option.splits)

lemma version_changed_iff:
  "version_changed syn added removed \<longleftrightarrow>
     (\<exists>x\<in>set added. \<exists>y\<in>set removed. \<exists>v w.
         version_value syn x = Some v \<and> version_value syn y = Some w \<and> v \<noteq> w)"
  by (simp add: version_changed_def list_ex_iff different_versions_iff)

lemma other_field_changed_iff:
  "other_field_changed syn added removed \<longleftrightarrow>
     (\<exists>x\<in>set added \<union> set removed.
         version_value syn x = None \<and> (\<exists>c\<in>set x. \<not> is_js_whitespace c) \<and> \<not> comment_line syn x)"
  by (auto simp: other_field_changed_def semantic_field_line_def list_ex_iff list_all_iff)

text \<open>Scenarios A, B and C of section 8 of the specification.\<close>

lemma evaluate_scenario_A: "evaluate json_syntax scenario_A = Inr BumpRequired"
  by (simp add: evaluate_def other_field_changed_def version_changed_def different_versions_def semantic_field_line_def
        added_lines_def removed_lines_def prefixed_lines_def scenario_A_def field_line_def
        quoted_def json_syntax_def json_version_value_def trim_def is_js_whitespace_def str_def Let_def)

lemma evaluate_scenario_B: "evaluate json_syntax scenario_B = Inr NoBumpRequired"
  by (simp add: evaluate_def other_field_changed_def version_changed_def different_versions_def semantic_field_line_def
        added_lines_def removed_lines_def prefixed_lines_def scenario_B_def field_line_def
        quoted_def json_syntax_def json_version_value_def trim_def is_js_whitespace_def str_def Let_def)

lemma evaluate_empty_diff: "evaluate json_syntax [] = Inr NoBumpRequired"
  by (simp add: evaluate_def other_field_changed_def version_changed_def different_versions_def semantic_field_line_def
        added_lines_def removed_lines_def prefixed_lines_def
        json_syntax_def)


lemma scenario_B_lines:
  "added_lines json_syntax scenario_B
     = [tl (field_line ''+'' ''version'' ''1.0.1''), tl (field_line ''+'' ''description'' ''new text'')]"
  "removed_lines json_syntax scenario_B = [tl (field_line ''-'' ''version'' ''1.0.0'')]"
  by (simp_all add: added_lines_def removed_lines_def prefixed_lines_def scenario_B_def
        field_line_def quoted_def json_syntax_def str_def)

lemma scenario_B_versions:
  "version_value json_syntax (tl (field_line ''+'' ''version'' ''1.0.1'')) = Some (str ''1.0.1'')"
  "version_value json_syntax (tl (field_line ''-'' ''version'' ''1.0.0'')) = Some (str ''1.0.0'')"
  by (simp_all add: json_syntax_def json_version_value_def field_line_def quoted_def trim_def
        is_js_whitespace_def str_def Let_def)

lemma scenario_B_parseable: "\<not> unparseable json_syntax scenario_B"
  by (simp add: json_syntax_def scenario_B_def field_line_def quoted_def str_def)

section \<open>Option parsing\<close>

text \<open>
  C8, as stated: Staged mode is selected if and only if \<^verbatim>\<open>--staged\<close> is present in the
  argument vector. With the arguments \<^verbatim>\<open>--branch --staged\<close> the string \<^verbatim>\<open>--staged\<close> is
  present, but it is taken as the ref of \<^verbatim>\<open>--branch\<close>: \<open>staged\<close> stays false.
\<close>

theorem parseArgs_staged_consumed_counterexample:
  "str ''--staged'' \<in> set (drop 2 argv_branch_staged)
   \<and> staged (parseArgs argv_branch_staged) = False
   \<and> branch (parseArgs argv_branch_staged) = str ''--staged''"
  by (simp add: parseArgs_argv_branch_staged) (simp add: argv_branch_staged_def)

text \<open>
  C8, amended. \<open>staged\<close> is true if and only if \<^verbatim>\<open>--staged\<close> occurs at a position that is
  read as a flag, that is, not consumed as the ref of a preceding \<^verbatim>\<open>--branch\<close>. When no
  \<^verbatim>\<open>--branch\<close> read as a flag has a following argument, \<open>branch\<close> is \<^verbatim>\<open>HEAD\<close>; otherwise
  \<open>branch\<close> is the argument following such a \<^verbatim>\<open>--branch\<close>. When neither flag occurs in the
  arguments, the result is the default: not staged, \<^verbatim>\<open>HEAD\<close>.
\<close>

theorem parseArgs_selects_mode:
  "(staged (parseArgs argv) \<longleftrightarrow>
      (\<exists>j<length (drop 2 argv).
          read_as_flag (drop 2 argv) j \<and> drop 2 argv ! j = str ''--staged''))
   \<and> (branch_flags (drop 2 argv) = [] \<longrightarrow> branch (parseArgs argv) = str ''HEAD'')
   \<and> (branch_flags (drop 2 argv) \<noteq> [] \<longrightarrow>
        (\<exists>j\<in>set (branch_flags (drop 2 argv)). branch (parseArgs argv) = drop 2 argv ! (j + 1)))
   \<and> (str ''--staged'' \<notin> set (drop 2 argv) \<and> str ''--branch'' \<notin> set (drop 2 argv)
        \<longrightarrow> parseArgs argv = default_options)"
proof -
  let ?args = "drop 2 argv"
  have 1: "staged (parseArgs argv) \<longleftrightarrow>
      (\<exists>j<length ?args. read_as_flag ?args j \<and> ?args ! j = str ''--staged'')"
    by (rule parseArgs_staged_iff)
  have 2: "branch_flags ?args = [] \<longrightarrow> branch (parseArgs argv) = str ''HEAD''"
    by (simp add: parseArgs_branch_eq)
  have 3: "branch_flags ?args \<noteq> [] \<longrightarrow>
        (\<exists>j\<in>set (branch_flags ?args). branch (parseArgs argv) = ?args ! (j + 1))"
  proof
    assume ne: "branch_flags ?args \<noteq> []"
    then have "last (branch_flags ?args) \<in> set (branch_flags ?args)" by simp
    moreover have "branch (parseArgs argv) = ?args ! (last (branch_flags ?args) + 1)"
      using ne by (simp add: parseArgs_branch_eq)
    ultimately show "\<exists>j\<in>set (branch_flags ?args). branch (parseArgs argv) = ?args ! (j + 1)"
      by blast
  qed
  have 4: "str ''--staged'' \<notin> set ?args \<and> str ''--branch'' \<notin> set ?args
        \<longrightarrow> parseArgs argv = default_options"
  proof
    assume h: "str ''--staged'' \<notin> set ?args \<and> str ''--branch'' \<notin> set ?args"
    then have "\<not> staged (parseArgs argv)"
      unfolding 1 by (auto simp: in_set_conv_nth)
    moreover have "branch (parseArgs argv) = str ''HEAD''"
      using h by (simp add: parseArgs_branch_eq branch_flags_none)
    ultimately show "parseArgs argv = default_options"
      by (simp add: default_options_def)
  qed
  from 1 2 3 4 show ?thesis by (intro conjI)
qed

theorem parseArgs_selects_mode_witness:
  "parseArgs argv_staged_branch_main = \<lparr> staged = True, branch = str ''main'' \<rparr>
   \<and> branch_flags (drop 2 argv_staged_branch_main) = [1]
   \<and> parseArgs [str ''bun'', str ''check-plugin-versions.ts''] = default_options"
  using parseArgs_selects_mode [of argv_staged_branch_main]
        parseArgs_selects_mode [of "[str ''bun'', str ''check-plugin-versions.ts'']"]
  by (simp add: parseArgs_argv_staged_branch_main)
     (simp add: argv_staged_branch_main_def branch_flags_def branch_occurrences_def
        upt_conv_Cons read_as_flag_def branch_run_def str_def)

text \<open>
  C10, as stated: when \<^verbatim>\<open>--branch\<close> occurs more than once with a value, the value of the
  last occurrence is returned. With the arguments \<^verbatim>\<open>--branch --branch x\<close> the last
  \<^verbatim>\<open>--branch\<close> that has a following argument is the second one, followed by \<^verbatim>\<open>x\<close>, but
  the result is the ref \<^verbatim>\<open>--branch\<close>: the second \<^verbatim>\<open>--branch\<close> is the value of the first.
\<close>

theorem parseArgs_last_branch_counterexample:
  "branch_occurrences (drop 2 argv_branch_branch) = [0, 1]
   \<and> drop 2 argv_branch_branch ! (last (branch_occurrences (drop 2 argv_branch_branch)) + 1)
       = str ''x''
   \<and> branch (parseArgs argv_branch_branch) = str ''--branch''
   \<and> str ''--branch'' \<noteq> str ''x''"
  by (simp add: parseArgs_argv_branch_branch)
     (simp add: branch_occurrences_def argv_branch_branch_def upt_conv_Cons str_def)

text \<open>
  C10, amended. The loop terminates on every argument vector (\<open>parseArgs_loop\<close> is a total
  function), and it reads each index of \<^verbatim>\<open>args\<close> exactly once, in increasing order, so
  never an index past the end. A trailing \<^verbatim>\<open>--branch\<close> that is read as a flag is ignored:
  the result is that of the vector without it, and the ref is \<^verbatim>\<open>HEAD\<close> when no
  \<^verbatim>\<open>--branch\<close> precedes it. The ref returned is the argument following the last
  \<^verbatim>\<open>--branch\<close> that is read as a flag and has a following argument, and \<^verbatim>\<open>HEAD\<close> when
  there is none.
\<close>

theorem parseArgs_reads_in_range_last_flag_wins:
  "parseArgs_reads argv = [0..<length (drop 2 argv)]
   \<and> (\<forall>r\<in>set (parseArgs_reads argv). r < length (drop 2 argv))
   \<and> (drop 2 argv = xs @ [str ''--branch''] \<and> read_as_flag (drop 2 argv) (length xs)
        \<longrightarrow> parseArgs argv = parseArgs (butlast argv))
   \<and> (drop 2 argv = xs @ [str ''--branch''] \<and> str ''--branch'' \<notin> set xs
        \<longrightarrow> branch (parseArgs argv) = str ''HEAD'')
   \<and> branch (parseArgs argv)
       = (if branch_flags (drop 2 argv) = [] then str ''HEAD''
          else drop 2 argv ! (last (branch_flags (drop 2 argv)) + 1))"
proof -
  have 1: "parseArgs_reads argv = [0..<length (drop 2 argv)]"
    by (rule parseArgs_reads_eq)
  have 2: "\<forall>r\<in>set (parseArgs_reads argv). r < length (drop 2 argv)"
    unfolding 1 by simp
  have 3: "drop 2 argv = xs @ [str ''--branch''] \<and> read_as_flag (drop 2 argv) (length xs)
        \<longrightarrow> parseArgs argv = parseArgs (butlast argv)"
    using parseArgs_trailing_branch by blast
  have 5: "branch (parseArgs argv)
       = (if branch_flags (drop 2 argv) = [] then str ''HEAD''
          else drop 2 argv ! (last (branch_flags (drop 2 argv)) + 1))"
    by (rule parseArgs_branch_eq)
  have 4: "drop 2 argv = xs @ [str ''--branch''] \<and> str ''--branch'' \<notin> set xs
        \<longrightarrow> branch (parseArgs argv) = str ''HEAD''"
    unfolding 5 by (auto simp: branch_flags_no_branch)
  from 1 2 3 4 5 show ?thesis by (intro conjI)
qed

theorem parseArgs_reads_in_range_last_flag_wins_witness:
  "parseArgs_reads argv_two_refs_trailing = [0..<5]
   \<and> parseArgs argv_two_refs_trailing = parseArgs (butlast argv_two_refs_trailing)
   \<and> branch (parseArgs argv_two_refs_trailing) = str ''b''
   \<and> branch (parseArgs [str ''bun'', str ''check-plugin-versions.ts'', str ''--branch''])
       = str ''HEAD''"
proof -
  let ?xs = "[str ''--branch'', str ''a'', str ''--branch'', str ''b'']"
  let ?short = "[str ''bun'', str ''check-plugin-versions.ts'', str ''--branch'']"
  have d: "drop 2 argv_two_refs_trailing = ?xs @ [str ''--branch'']"
    by (simp add: argv_two_refs_trailing_def)
  have f: "read_as_flag (drop 2 argv_two_refs_trailing) (length ?xs)"
    by (simp add: argv_two_refs_trailing_def read_as_flag_def branch_run_def str_def)
  have l: "length (drop 2 argv_two_refs_trailing) = 5"
    by (simp add: argv_two_refs_trailing_def)
  have s: "drop 2 ?short = [] @ [str ''--branch''] \<and> str ''--branch'' \<notin> set []"
    by simp
  note t = parseArgs_reads_in_range_last_flag_wins [of argv_two_refs_trailing ?xs]
  have "parseArgs_reads argv_two_refs_trailing = [0..<length (drop 2 argv_two_refs_trailing)]"
    using t by blast
  then have 1: "parseArgs_reads argv_two_refs_trailing = [0..<5]"
    by (simp only: l)
  have 2: "parseArgs argv_two_refs_trailing = parseArgs (butlast argv_two_refs_trailing)"
    using t d f by blast
  have 3: "branch (parseArgs argv_two_refs_trailing) = str ''b''"
    by (simp add: parseArgs_argv_two_refs_trailing)
  from parseArgs_reads_in_range_last_flag_wins [of ?short "[]"] s
  have 4: "branch (parseArgs ?short) = str ''HEAD''"
    by blast
  from 1 2 3 4 show ?thesis by (intro conjI)
qed

section \<open>The list of changed plugins\<close>



section \<open>Failures of the shell calls\<close>

text \<open>
  C4. \<^verbatim>\<open>validatePlugin\<close> returns false whenever the per-plugin diff query throws, and
  whenever the diff query returns and the piped policy check throws, whatever was thrown
  (a non-zero exit status of any value, or any other error).
\<close>

theorem validatePlugin_false_on_exception:
  assumes "raw_text env (join (str '' '') (validatePlugin_args pluginName options)) = Inl e
         \<or> (raw_text env (join (str '' '') (validatePlugin_args pluginName options)) = Inr diff
            \<and> policy_check env diff = Inl e)"
  shows "validatePlugin env pluginName options = False"
  using assms by (auto simp: validatePlugin_def)

theorem validatePlugin_false_on_exception_witness:
  "validatePlugin failing_env (str ''tools'') default_options = False
   \<and> validatePlugin bun_shell (str ''tools'') default_options = False"
  using validatePlugin_false_on_exception
          [of failing_env "str ''tools''" default_options "ShellError 128"]
        validatePlugin_false_on_exception
          [of bun_shell "str ''tools''" default_options TypeError]
  by (simp add: failing_env_def bun_shell_def)

text \<open>
  C2, as stated: a failed query and an empty change set are distinguishable for the caller
  of the resolver. They are not: with a shell whose list query exits with status 128 and a
  shell whose list query prints nothing, \<^verbatim>\<open>getChangedPlugins\<close> returns the same list and
  \<^verbatim>\<open>main\<close> produces the same output and exit status.
\<close>

theorem failed_query_same_as_no_changes_counterexample:
  "raw_text failing_env (join (str '' '') (getChangedPlugins_args (parseArgs []))) = Inl (ShellError 128)
   \<and> raw_text empty_env (join (str '' '') (getChangedPlugins_args (parseArgs []))) = Inr []
   \<and> getChangedPlugins failing_env (parseArgs []) = getChangedPlugins empty_env (parseArgs [])
   \<and> main failing_env [] = main empty_env []"
  by (simp add: main_no_changes getChangedPlugins_def failing_env_def empty_env_def
        trim_def filter_Boolean_def)

text \<open>
  C2, amended. When the list query throws, \<^verbatim>\<open>getChangedPlugins\<close> returns the empty list,
  as it does when the query prints nothing but whitespace; in both cases \<^verbatim>\<open>main\<close> prints
  that no plugin changes were detected and exits with status 0.
\<close>

theorem failed_query_reported_as_no_changes:
  assumes "raw_text env (join (str '' '') (getChangedPlugins_args (parseArgs argv))) = Inl e
         \<or> (raw_text env (join (str '' '') (getChangedPlugins_args (parseArgs argv))) = Inr result
            \<and> trim result = [])"
  shows "getChangedPlugins env (parseArgs argv) = []
       \<and> main env argv
           = \<lparr> console = [LogTitle, LogRule, LogBlank, LogNoChanges], exit_status = 0 \<rparr>"
proof -
  have "getChangedPlugins env (parseArgs argv) = []"
    using assms by (auto simp: getChangedPlugins_def filter_Boolean_def)
  then show ?thesis by (simp add: main_no_changes)
qed

theorem failed_query_reported_as_no_changes_witness:
  "main failing_env []
     = \<lparr> console = [LogTitle, LogRule, LogBlank, LogNoChanges], exit_status = 0 \<rparr>
   \<and> main empty_env []
     = \<lparr> console = [LogTitle, LogRule, LogBlank, LogNoChanges], exit_status = 0 \<rparr>"
  using failed_query_reported_as_no_changes [of failing_env "[]" "ShellError 128"]
        failed_query_reported_as_no_changes [of empty_env "[]" _ "[]"]
  by (simp add: failing_env_def empty_env_def trim_def)




section \<open>The verdict of validatePlugin\<close>


section \<open>The aggregate result\<close>

text \<open>
  C5. The run exits with status 0 exactly when \<^verbatim>\<open>validatePlugin\<close> returned true for none
  of the changed plugins; in particular it exits with 0 when no plugin changed, and with 1
  when \<^verbatim>\<open>validatePlugin\<close> returned true for at least one changed plugin.
\<close>

theorem main_exit_status_iff_no_update_needed:
  "(exit_status (main env argv) = 0 \<longleftrightarrow>
      (\<forall>p\<in>set (getChangedPlugins env (parseArgs argv)). \<not> validatePlugin env p (parseArgs argv)))
   \<and> (getChangedPlugins env (parseArgs argv) = [] \<longrightarrow> exit_status (main env argv) = 0)
   \<and> ((\<exists>p\<in>set (getChangedPlugins env (parseArgs argv)). validatePlugin env p (parseArgs argv))
         \<longrightarrow> exit_status (main env argv) = 1)"
  by (simp add: main_exit_status)

theorem main_exit_status_iff_no_update_needed_witness:
  "exit_status (main bun_shell []) = 0 \<and> exit_status (main empty_env []) = 0"
  using main_exit_status_iff_no_update_needed [of bun_shell "[]"]
        main_exit_status_iff_no_update_needed [of empty_env "[]"]
  by (simp add: parseArgs_nil bun_shell_changed empty_env_changed)

section \<open>The report\<close>



section \<open>The decision rule of the evaluator\<close>

text \<open>
  C1. For every diff that parses, \<open>evaluate\<close> returns \<^verbatim>\<open>BumpRequired\<close> if and only if
  some added or removed line is a field other than the version field, not whitespace only
  and not a comment (axis b), and no version-field line of the added set and version-field
  line of the removed set have different values (axis a); otherwise it returns
  \<^verbatim>\<open>NoBumpRequired\<close>. In particular, when the version field changed to a different value,
  the verdict is \<^verbatim>\<open>NoBumpRequired\<close> whatever else changed.
\<close>

theorem evaluate_bump_required_iff:
  assumes "\<not> unparseable syn diff"
  shows "(evaluate syn diff = Inr BumpRequired \<longleftrightarrow>
            (\<exists>x\<in>set (added_lines syn diff) \<union> set (removed_lines syn diff).
                version_value syn x = None \<and> (\<exists>c\<in>set x. \<not> is_js_whitespace c)
                \<and> \<not> comment_line syn x)
            \<and> \<not> (\<exists>x\<in>set (added_lines syn diff). \<exists>y\<in>set (removed_lines syn diff). \<exists>v w.
                    version_value syn x = Some v \<and> version_value syn y = Some w \<and> v \<noteq> w))
       \<and> (evaluate syn diff \<noteq> Inr BumpRequired \<longrightarrow> evaluate syn diff = Inr NoBumpRequired)
       \<and> ((\<exists>x\<in>set (added_lines syn diff). \<exists>y\<in>set (removed_lines syn diff). \<exists>v w.
               version_value syn x = Some v \<and> version_value syn y = Some w \<and> v \<noteq> w)
            \<longrightarrow> evaluate syn diff = Inr NoBumpRequired)"
  using assms
  by (simp add: evaluate_def version_changed_iff other_field_changed_iff)

theorem evaluate_bump_required_iff_witness:
  "\<not> unparseable json_syntax scenario_B
   \<and> evaluate json_syntax scenario_B = Inr NoBumpRequired"
proof -
  have "str ''1.0.1'' \<noteq> str ''1.0.0''" by (simp add: str_def)
  then have "\<exists>x\<in>set (added_lines json_syntax scenario_B).
          \<exists>y\<in>set (removed_lines json_syntax scenario_B). \<exists>v w.
             version_value json_syntax x = Some v \<and> version_value json_syntax y = Some w \<and> v \<noteq> w"
    unfolding scenario_B_lines using scenario_B_versions by simp
  with evaluate_bump_required_iff [OF scenario_B_parseable] scenario_B_parseable
  show ?thesis by blast
qed

end
